theory Spec2Isabelle
  imports Complex_Main "HOL-Library.Multiset"
begin

section \<open>Emissivity plots of the Ovda repository: loading, binning and aggregation\<close>

text \<open>
  The development embeds the data path of the two plotting scripts:
  \<^item> \<^verbatim>\<open>emissivity_vs_elevation.py\<close> (Pipeline A), lines 81-82: the loader;
  \<^item> \<^verbatim>\<open>polEmissivity_vs_latitude.py\<close> (Pipeline B), lines 87-90: the loader, and
    lines 93-114: sort, bin edges, range filter, binning and per-bin aggregates.

  Conventions of the embedding.
  \<^item> A float is a \<open>real\<close>; a float that may be NaN is a \<open>real option\<close> with \<open>None\<close>
    for NaN. Comparisons of doubles are exact, and so are they here. The arithmetic of
    \<open>arange\<close> and of the aggregates is exact, which that of doubles is not: the theorems
    that depend on the values of the bin edges (claims C1 and C2) are therefore stated
    for \<open>stage_with\<close>, where \<^verbatim>\<open>np.arange\<close> is a parameter, and hold for the edges that
    line 99 computes on doubles.
  \<^item> An exception is a value \<open>Inl e\<close> of the sum type \<open>error + 'a\<close>.
  \<^item> The library calls (\<^verbatim>\<open>fiona.listlayers\<close>, \<^verbatim>\<open>geopandas.read_file\<close>,
    \<^verbatim>\<open>sort_values\<close>, \<^verbatim>\<open>min\<close>, \<^verbatim>\<open>max\<close>, \<^verbatim>\<open>numpy.arange\<close>, \<^verbatim>\<open>pandas.cut\<close>,
    \<^verbatim>\<open>groupby(...).transform\<close>) are modelled by their documented behaviour with the
    arguments and defaults the scripts pass.
\<close>

datatype error =
    IndexError    \<comment> \<open>\<^verbatim>\<open>listlayers(f)[0]\<close> on a file without layers\<close>
  | LayerError    \<comment> \<open>\<^verbatim>\<open>read_file\<close>: the file has no layer of that name\<close>
  | ArangeError   \<comment> \<open>\<^verbatim>\<open>np.arange\<close>: the length cannot be computed (NaN bound, zero step)\<close>
  | CutError      \<comment> \<open>\<^verbatim>\<open>pd.cut\<close>: bins not increasing, or duplicated edges\<close>

subsection \<open>The loader\<close>

text \<open>
  A geopackage file is the list of its layers in file order, each a name with its
  attribute table.
\<close>

type_synonym 'a gpkg = "(string \<times> 'a) list"

definition listlayers :: "'a gpkg \<Rightarrow> string list" where
  "listlayers file = map fst file"

text \<open>\<^verbatim>\<open>fiona.listlayers(file)[0]\<close>\<close>

definition first_layer :: "'a gpkg \<Rightarrow> error + string" where
  "first_layer file = (case listlayers file of [] \<Rightarrow> Inl IndexError | l # _ \<Rightarrow> Inr l)"

text \<open>
  \<^verbatim>\<open>gpd.read_file(file, layer = layer)\<close>: the first layer whose name is \<open>layer\<close>. The
  names of the layers of a GeoPackage are matched without regard to the case of the
  letters A to Z.
\<close>

definition lower_code :: "char \<Rightarrow> nat" where
  "lower_code c = (let n = of_char c in if 65 \<le> n \<and> n \<le> 90 then n + 32 else n)"

definition same_layer_name :: "string \<Rightarrow> string \<Rightarrow> bool" where
  "same_layer_name a b \<longleftrightarrow> map lower_code a = map lower_code b"

definition read_file :: "'a gpkg \<Rightarrow> string \<Rightarrow> error + 'a" where
  "read_file file layer =
     (case find (\<lambda>(name, t). same_layer_name name layer) file of
        None \<Rightarrow> Inl LayerError
      | Some (name, t) \<Rightarrow> Inr t)"

text \<open>Pipeline A, \<^verbatim>\<open>emissivity_vs_elevation.py\<close> lines 81-82.\<close>

definition load_A :: "'a gpkg \<Rightarrow> error + 'a" where
  "load_A file =
     (case first_layer file of Inl e \<Rightarrow> Inl e
      | Inr layer \<Rightarrow> read_file file layer)"

text \<open>
  Pipeline B, \<^verbatim>\<open>polEmissivity_vs_latitude.py\<close> lines 87-90. The result is the pair
  \<open>(ovda_h, ovda_v)\<close>. Line 90 reads the H file with \<open>Vlayer\<close>; \<open>Hlayer\<close> is computed on
  line 87 and never used.
\<close>

definition load_B :: "'a gpkg \<Rightarrow> 'a gpkg \<Rightarrow> error + ('a \<times> 'a)" where
  "load_B Hfile Vfile =
     (case first_layer Hfile of Inl e \<Rightarrow> Inl e
      | Inr Hlayer \<Rightarrow>
     (case first_layer Vfile of Inl e \<Rightarrow> Inl e
      | Inr Vlayer \<Rightarrow>
     (case read_file Vfile Vlayer of Inl e \<Rightarrow> Inl e
      | Inr ovda_v \<Rightarrow>
     (case read_file Hfile Vlayer of Inl e \<Rightarrow> Inl e
      | Inr ovda_h \<Rightarrow> Inr (ovda_h, ovda_v)))))"

subsection \<open>Observation rows\<close>

text \<open>
  A row of a loaded table, restricted to the three columns Pipeline B reads: the columns
  named by \<^verbatim>\<open>args.emisField\<close>, \<^verbatim>\<open>args.incField\<close> and \<^verbatim>\<open>args.latField\<close>.
\<close>

record obs =
  emisField :: real
  incField :: real
  latField :: real

text \<open>
  \<^verbatim>\<open>df.sort_values(args.latField)\<close>: ascending by latitude. The default sort of pandas
  is not stable; the embedding takes the stable order for rows of equal latitude, and the
  theorem of claim C8 shows that this choice does not reach the bin summaries.
\<close>

definition sort_values :: "obs list \<Rightarrow> obs list" where
  "sort_values df = sort_key latField df"

text \<open>\<^verbatim>\<open>Series.min()\<close> and \<^verbatim>\<open>Series.max()\<close>: NaN for a column without rows.\<close>

definition col_min :: "real list \<Rightarrow> real option" where
  "col_min xs = (case xs of [] \<Rightarrow> None | x # xs' \<Rightarrow> Some (fold min xs' x))"

definition col_max :: "real list \<Rightarrow> real option" where
  "col_max xs = (case xs of [] \<Rightarrow> None | x # xs' \<Rightarrow> Some (fold max xs' x))"

subsection \<open>Bin edges\<close>

text \<open>
  \<^verbatim>\<open>np.arange(start, stop, step)\<close> in exact arithmetic: the values \<open>start + i * step\<close>
  for \<open>0 \<le> i < \<lceil>(stop - start) / step\<rceil>\<close>; no value when that length is not positive. A
  NaN bound or a zero step raises, the length being NaN or infinite.

  On doubles the quotient and the sums are rounded, so the length and the edges after
  the first can differ from these (the edge computed for 15.3 can be
  15.299999999999999). \<open>arange\<close> agrees with the code where the values involved are
  exact in doubles, as in the worked tables below.
\<close>

fun arange :: "real option \<Rightarrow> real option \<Rightarrow> real \<Rightarrow> error + real list" where
  "arange (Some start) (Some stop) step =
     (if step = 0 then Inl ArangeError
      else Inr (map (\<lambda>i. start + real i * step) [0 ..< nat \<lceil>(stop - start) / step\<rceil>]))"
| "arange _ _ _ = Inl ArangeError"

subsection \<open>Binning\<close>

text \<open>
  A bin of \<^verbatim>\<open>pd.cut(..., right=True)\<close>: the interval \<open>(left, right]\<close> between two
  neighbouring edges. The embedding names a bin by its two edges as they are. pandas
  names it by a label that shows the edges rounded to \<^verbatim>\<open>precision\<close> digits (3, or as many
  more as keep the labels of different bins different); lines 105-114 group by the bin.
\<close>

datatype interval = Interval (left: real) (right: real)

text \<open>
  \<^verbatim>\<open>bins.searchsorted(x, side="left")\<close> on increasing \<open>bins\<close>: the first index \<open>i\<close>
  with \<open>x \<le> bins[i]\<close>, the length when there is none.
\<close>

definition searchsorted_left :: "real list \<Rightarrow> real \<Rightarrow> nat" where
  "searchsorted_left bins x = length (takeWhile (\<lambda>b. b < x) bins)"

text \<open>
  The label of one value: index \<open>0\<close> (the value is not above the first edge;
  \<^verbatim>\<open>include_lowest\<close> is left at False) and index \<open>len(bins)\<close> (the value is above the last
  edge) give NaN, index \<open>ids\<close> gives the interval \<open>(bins[ids - 1], bins[ids]]\<close>.
\<close>

definition cut1 :: "real list \<Rightarrow> real \<Rightarrow> interval option" where
  "cut1 bins x =
     (let ids = searchsorted_left bins x in
      if ids = length bins \<or> ids = 0 then None
      else Some (Interval (bins ! (ids - 1)) (bins ! ids)))"

text \<open>
  \<^verbatim>\<open>pd.cut(x, bins, right=True)\<close> with an array of edges: raises when the edges decrease
  somewhere, and when an edge is repeated among other than two edges. Fewer than two
  edges make no interval, and every label is NaN.
\<close>

definition cut :: "real list \<Rightarrow> real list \<Rightarrow> error + interval option list" where
  "cut x bins =
     (if \<not> sorted bins then Inl CutError
      else if \<not> distinct bins \<and> length bins \<noteq> 2 then Inl CutError
      else Inr (map (cut1 bins) x))"

subsection \<open>Grouped aggregates\<close>

text \<open>The values of the rows of one group, in row order.\<close>

definition group_values :: "'k option list \<Rightarrow> real list \<Rightarrow> 'k \<Rightarrow> real list" where
  "group_values keys vals k = map snd (filter (\<lambda>(k', v). k' = Some k) (zip keys vals))"

text \<open>
  \<^verbatim>\<open>df.groupby(key)[col].transform(agg)\<close>: every row gets the aggregate of its own group;
  a row whose key is NaN belongs to no group and gets NaN.
\<close>

definition transform ::
  "(real list \<Rightarrow> real option) \<Rightarrow> 'k option list \<Rightarrow> real list \<Rightarrow> real option list" where
  "transform agg keys vals =
     map (\<lambda>k. case k of None \<Rightarrow> None | Some b \<Rightarrow> agg (group_values keys vals b)) keys"

definition mean :: "real list \<Rightarrow> real option" where
  "mean vs = (if vs = [] then None else Some (sum_list vs / real (length vs)))"

text \<open>
  The variance with \<open>ddof\<close> delta degrees of freedom: the squared deviations from the
  mean, summed and divided by \<open>n - ddof\<close>; NaN unless \<open>n > ddof\<close>.
\<close>

definition var :: "nat \<Rightarrow> real list \<Rightarrow> real option" where
  "var ddof vs =
     (if length vs \<le> ddof then None
      else Some (sum_list (map (\<lambda>v. (v - sum_list vs / real (length vs))\<^sup>2) vs)
                 / (real (length vs) - real ddof)))"

text \<open>The aggregate \<^verbatim>\<open>"std"\<close> of a groupby: \<open>ddof\<close> is left at its default, 1.\<close>

definition std :: "real list \<Rightarrow> real option" where
  "std vs = map_option sqrt (var 1 vs)"

subsection \<open>Pipeline B, lines 93-114\<close>

text \<open>A table after binning: its rows and the five columns lines 104-108 add.\<close>

record frame =
  rows :: "obs list"
  BIN :: "interval option list"
  MEAN_SURFACE_EMISSIVITY :: "real option list"
  STD_SURFACE_EMISSIVITY :: "real option list"
  MEAN_INCIDENCE_ANGLE :: "real option list"
  MEAN_RAD_FOOTPRINT_LATITUDE :: "real option list"

text \<open>Lines 104-108 for the H table, lines 110-114 for the V table.\<close>

definition bin_and_aggregate :: "real list \<Rightarrow> obs list \<Rightarrow> error + frame" where
  "bin_and_aggregate bins df =
     (case cut (map incField df) bins of Inl e \<Rightarrow> Inl e
      | Inr b \<Rightarrow> Inr \<lparr>
          rows = df,
          BIN = b,
          MEAN_SURFACE_EMISSIVITY = transform mean b (map emisField df),
          STD_SURFACE_EMISSIVITY = transform std b (map emisField df),
          MEAN_INCIDENCE_ANGLE = transform mean b (map incField df),
          MEAN_RAD_FOOTPRINT_LATITUDE = transform mean b (map latField df) \<rparr>)"

text \<open>
  Line 100: the rows of the V table whose incidence angle lies in
  \<open>[min_thi, max_thi]\<close>. A comparison with NaN is false.
\<close>

definition range_filter :: "real option \<Rightarrow> real option \<Rightarrow> obs list \<Rightarrow> obs list" where
  "range_filter min_thi max_thi df =
     (case (min_thi, max_thi) of
        (Some lo, Some hi) \<Rightarrow> filter (\<lambda>r. incField r \<ge> lo \<and> incField r \<le> hi) df
      | _ \<Rightarrow> [])"

text \<open>The variables of \<^verbatim>\<open>main\<close> after line 114.\<close>

record locals =
  bins :: "real list"
  dfh :: frame
  dfv :: frame

text \<open>Lines 97-114, on the two tables as sorted by lines 93-94.\<close>

definition bin_stage :: "real \<Rightarrow> obs list \<Rightarrow> obs list \<Rightarrow> error + locals" where
  "bin_stage binSize dfh0 dfv0 =
     (let min_thi = col_min (map incField dfh0);
          max_thi = col_max (map incField dfh0)
      in case arange min_thi (map_option (\<lambda>m. m + 0.05) max_thi) binSize of
           Inl e \<Rightarrow> Inl e
         | Inr edges \<Rightarrow>
             let dfv1 = range_filter min_thi max_thi dfv0
             in (case bin_and_aggregate edges dfh0 of Inl e \<Rightarrow> Inl e
                 | Inr fh \<Rightarrow>
                (case bin_and_aggregate edges dfv1 of Inl e \<Rightarrow> Inl e
                 | Inr fv \<Rightarrow> Inr \<lparr> bins = edges, dfh = fh, dfv = fv \<rparr>)))"

text \<open>Lines 93-114: the sort-filter-bin-aggregate stage of Pipeline B.\<close>

definition stage :: "real \<Rightarrow> obs list \<Rightarrow> obs list \<Rightarrow> error + locals" where
  "stage binSize ovda_h ovda_v = bin_stage binSize (sort_values ovda_h) (sort_values ovda_v)"

subsection \<open>Lines 93-114 with \<^verbatim>\<open>np.arange\<close> as a parameter\<close>

text \<open>
  The same lines, with the computation of line 99 left open: \<open>np_arange\<close> stands for
  \<^verbatim>\<open>np.arange\<close> on doubles, the rounding of the sum \<^verbatim>\<open>max_thi+0.05\<close> that is passed
  to it included, which \<open>arange\<close> does not have. The edges it returns are doubles, hence
  reals, and every later step (the range filter, \<^verbatim>\<open>pd.cut\<close>, the groups) only compares
  them. Everything else is as in \<open>bin_stage\<close> and \<open>stage\<close>, and \<open>stage\<close> is
  \<open>stage_with arange\<close>.
\<close>

definition bin_stage_with ::
  "(real option \<Rightarrow> real option \<Rightarrow> real \<Rightarrow> error + real list)
   \<Rightarrow> real \<Rightarrow> obs list \<Rightarrow> obs list \<Rightarrow> error + locals" where
  "bin_stage_with np_arange binSize dfh0 dfv0 =
     (let min_thi = col_min (map incField dfh0);
          max_thi = col_max (map incField dfh0)
      in case np_arange min_thi (map_option (\<lambda>m. m + 0.05) max_thi) binSize of
           Inl e \<Rightarrow> Inl e
         | Inr edges \<Rightarrow>
             let dfv1 = range_filter min_thi max_thi dfv0
             in (case bin_and_aggregate edges dfh0 of Inl e \<Rightarrow> Inl e
                 | Inr fh \<Rightarrow>
                (case bin_and_aggregate edges dfv1 of Inl e \<Rightarrow> Inl e
                 | Inr fv \<Rightarrow> Inr \<lparr> bins = edges, dfh = fh, dfv = fv \<rparr>)))"

definition stage_with ::
  "(real option \<Rightarrow> real option \<Rightarrow> real \<Rightarrow> error + real list)
   \<Rightarrow> real \<Rightarrow> obs list \<Rightarrow> obs list \<Rightarrow> error + locals" where
  "stage_with np_arange binSize ovda_h ovda_v =
     bin_stage_with np_arange binSize (sort_values ovda_h) (sort_values ovda_v)"


subsection \<open>The bin summaries of a run\<close>

text \<open>
  What lines 132-136 plot of a table after binning: the bin of a row with the four
  aggregates of that bin, as a set over the rows. A run is summarised by its bin edges
  and the bin summaries of its two tables, or by the exception it raised.
\<close>

definition bin_summaries ::
  "frame \<Rightarrow> (interval option \<times> real option \<times> real option \<times> real option \<times> real option) set" where
  "bin_summaries f =
     set (zip (BIN f) (zip (MEAN_SURFACE_EMISSIVITY f) (zip (STD_SURFACE_EMISSIVITY f)
       (zip (MEAN_INCIDENCE_ANGLE f) (MEAN_RAD_FOOTPRINT_LATITUDE f)))))"

definition run_summary ::
  "error + locals \<Rightarrow>
   error + real list
     \<times> (interval option \<times> real option \<times> real option \<times> real option \<times> real option) set
     \<times> (interval option \<times> real option \<times> real option \<times> real option \<times> real option) set" where
  "run_summary r =
     (case r of Inl e \<Rightarrow> Inl e
      | Inr s \<Rightarrow> Inr (bins s, bin_summaries (dfh s), bin_summaries (dfv s)))"

subsection \<open>The population standard deviation\<close>

text \<open>
  Following the spec's words, not the source: the spec calls the per-bin spread of
  emissivity the population standard deviation, the one whose divisor is \<open>n\<close>.
\<close>

definition population_std :: "real list \<Rightarrow> real option" where
  "population_std vs =
     (if vs = [] then None
      else Some (sqrt ((\<Sum>v\<leftarrow>vs. (v - sum_list vs / real (length vs))\<^sup>2) / real (length vs))))"

subsection \<open>Two worked tables\<close>

text \<open>
  \<open>scenario_h\<close> is the H table of the spec's binning scenario (incidence angles 10, 10,
  20, 30, emissivities 0.5, 0.6, 0.8, 0.9), with latitudes that increase in row order;
  \<open>sample_h\<close> and \<open>sample_v\<close> are an H and a V table with a bin of three rows in each.
  The frames written out after them are the values lines 93-114 compute for them with a
  bin size of 10.
\<close>

abbreviation (input) scenario_h :: "obs list" where
  "scenario_h \<equiv>
     [\<lparr>emisField = 0.5, incField = 10, latField = 1\<rparr>,
      \<lparr>emisField = 0.6, incField = 10, latField = 2\<rparr>,
      \<lparr>emisField = 0.8, incField = 20, latField = 3\<rparr>,
      \<lparr>emisField = 0.9, incField = 30, latField = 4\<rparr>]"

abbreviation (input) empty_frame :: frame where
  "empty_frame \<equiv> \<lparr>rows = [], BIN = [], MEAN_SURFACE_EMISSIVITY = [], STD_SURFACE_EMISSIVITY = [],
     MEAN_INCIDENCE_ANGLE = [], MEAN_RAD_FOOTPRINT_LATITUDE = []\<rparr>"

abbreviation (input) scenario_dfh :: frame where
  "scenario_dfh \<equiv>
     \<lparr>rows = scenario_h,
      BIN = [None, None, Some (Interval 10 20), Some (Interval 20 30)],
      MEAN_SURFACE_EMISSIVITY = [None, None, Some 0.8, Some 0.9],
      STD_SURFACE_EMISSIVITY = [None, None, None, None],
      MEAN_INCIDENCE_ANGLE = [None, None, Some 20, Some 30],
      MEAN_RAD_FOOTPRINT_LATITUDE = [None, None, Some 3, Some 4]\<rparr>"

abbreviation (input) scenario_result :: locals where
  "scenario_result \<equiv> \<lparr>bins = [10, 20, 30], dfh = scenario_dfh, dfv = empty_frame\<rparr>"

abbreviation (input) sample_h :: "obs list" where
  "sample_h \<equiv>
     [\<lparr>emisField = 0.5, incField = 10, latField = 1\<rparr>,
      \<lparr>emisField = 0.2, incField = 20, latField = 2\<rparr>,
      \<lparr>emisField = 0.4, incField = 20, latField = 3\<rparr>,
      \<lparr>emisField = 0.6, incField = 20, latField = 1.5\<rparr>]"

abbreviation (input) sample_v :: "obs list" where
  "sample_v \<equiv>
     [\<lparr>emisField = 0.5, incField = 9, latField = 1\<rparr>,
      \<lparr>emisField = 0.3, incField = 20, latField = 2\<rparr>,
      \<lparr>emisField = 0.5, incField = 15, latField = 1.5\<rparr>,
      \<lparr>emisField = 0.7, incField = 12, latField = 3\<rparr>,
      \<lparr>emisField = 0.7, incField = 21, latField = 4\<rparr>]"

abbreviation (input) sample_dfh :: frame where
  "sample_dfh \<equiv>
     \<lparr>rows =
        [\<lparr>emisField = 0.5, incField = 10, latField = 1\<rparr>,
         \<lparr>emisField = 0.6, incField = 20, latField = 1.5\<rparr>,
         \<lparr>emisField = 0.2, incField = 20, latField = 2\<rparr>,
         \<lparr>emisField = 0.4, incField = 20, latField = 3\<rparr>],
      BIN = [None, Some (Interval 10 20), Some (Interval 10 20), Some (Interval 10 20)],
      MEAN_SURFACE_EMISSIVITY = [None, Some 0.4, Some 0.4, Some 0.4],
      STD_SURFACE_EMISSIVITY = [None, Some 0.2, Some 0.2, Some 0.2],
      MEAN_INCIDENCE_ANGLE = [None, Some 20, Some 20, Some 20],
      MEAN_RAD_FOOTPRINT_LATITUDE = [None, Some (13 / 6), Some (13 / 6), Some (13 / 6)]\<rparr>"

abbreviation (input) sample_dfv :: frame where
  "sample_dfv \<equiv>
     \<lparr>rows =
        [\<lparr>emisField = 0.5, incField = 15, latField = 1.5\<rparr>,
         \<lparr>emisField = 0.3, incField = 20, latField = 2\<rparr>,
         \<lparr>emisField = 0.7, incField = 12, latField = 3\<rparr>],
      BIN = [Some (Interval 10 20), Some (Interval 10 20), Some (Interval 10 20)],
      MEAN_SURFACE_EMISSIVITY = [Some 0.5, Some 0.5, Some 0.5],
      STD_SURFACE_EMISSIVITY = [Some 0.2, Some 0.2, Some 0.2],
      MEAN_INCIDENCE_ANGLE = [Some (47 / 3), Some (47 / 3), Some (47 / 3)],
      MEAN_RAD_FOOTPRINT_LATITUDE = [Some (13 / 6), Some (13 / 6), Some (13 / 6)]\<rparr>"

abbreviation (input) sample_result :: locals where
  "sample_result \<equiv> \<lparr>bins = [10, 20], dfh = sample_dfh, dfv = sample_dfv\<rparr>"

section \<open>Properties of the library operations\<close>

lemma col_min_eq: "col_min xs = (if xs = [] then None else Some (Min (set xs)))"
proof (cases xs)
  case Nil
  then show ?thesis by (simp add: col_min_def)
next
  case (Cons x xs')
  then show ?thesis
    using Min.set_eq_fold [of x xs'] by (simp add: col_min_def)
qed

lemma col_max_eq: "col_max xs = (if xs = [] then None else Some (Max (set xs)))"
proof (cases xs)
  case Nil
  then show ?thesis by (simp add: col_max_def)
next
  case (Cons x xs')
  then show ?thesis
    using Max.set_eq_fold [of x xs'] by (simp add: col_max_def)
qed

lemma edges_strict:
  fixes a step :: real
  assumes "0 < step"
  shows "sorted_wrt (<) (map (\<lambda>i. a + real i * step) [0 ..< n])"
proof -
  have "sorted_wrt (\<lambda>x y. a + real x * step < a + real y * step) [0 ..< n]"
    by (rule sorted_wrt_mono_rel [OF _ sorted_wrt_upt]) (simp add: assms)
  then show ?thesis
    by (simp add: sorted_wrt_map)
qed

lemma arange_strict:
  assumes "arange (Some start) (Some stop) step = Inr es" and "start \<le> stop"
  shows "sorted_wrt (<) es"
proof (cases "0 < step")
  case True
  with assms(1) show ?thesis
    by (auto simp: edges_strict split: if_splits)
next
  case False
  with assms(1) have neg: "step < 0"
    by (auto split: if_splits)
  with assms(2) have "(stop - start) / step \<le> 0"
    by (simp add: divide_nonneg_neg)
  then have "nat \<lceil>(stop - start) / step\<rceil> = 0"
    by (simp add: ceiling_le_zero)
  with assms(1) neg show ?thesis
    by (auto split: if_splits)
qed

lemma cut_Inr: "sorted_wrt (<) E \<Longrightarrow> cut x E = Inr (map (cut1 E) x)"
  by (simp add: cut_def strict_sorted_iff)

lemma cut1_Some_D:
  assumes "cut1 E x = Some b"
  shows "left b < x \<and> x \<le> right b \<and>
         (\<exists>j. Suc j < length E \<and> b = Interval (E ! j) (E ! Suc j))"
proof -
  define ids where "ids = length (takeWhile (\<lambda>e. e < x) E)"
  from assms have ids: "ids \<noteq> length E" "ids \<noteq> 0" and b: "b = Interval (E ! (ids - 1)) (E ! ids)"
    by (auto simp: cut1_def searchsorted_left_def ids_def Let_def split: if_splits)
  have "ids \<le> length E"
    by (simp add: ids_def length_takeWhile_le)
  with ids have lt: "ids < length E" by simp
  then have up: "x \<le> E ! ids"
    using nth_length_takeWhile [of "\<lambda>e. e < x" E] by (simp add: ids_def not_less)
  have "takeWhile (\<lambda>e. e < x) E ! (ids - 1) \<in> set (takeWhile (\<lambda>e. e < x) E)"
    using ids(2) by (simp add: ids_def)
  then have "takeWhile (\<lambda>e. e < x) E ! (ids - 1) < x"
    by (auto dest: set_takeWhileD)
  moreover have "takeWhile (\<lambda>e. e < x) E ! (ids - 1) = E ! (ids - 1)"
    using ids(2) by (intro takeWhile_nth) (simp add: ids_def)
  ultimately have lo: "E ! (ids - 1) < x" by simp
  from ids(2) lt have "Suc (ids - 1) < length E" "E ! ids = E ! Suc (ids - 1)" by simp_all
  with lo up b show ?thesis by auto
qed

lemma cut1_None_iff:
  assumes "sorted E"
  shows "cut1 E x = None \<longleftrightarrow> E = [] \<or> x \<le> hd E \<or> last E < x"
proof -
  let ?P = "\<lambda>e. e < x"
  have a: "length (takeWhile ?P E) = 0 \<longleftrightarrow> E = [] \<or> x \<le> hd E"
    by (auto simp: takeWhile_eq_Nil_iff not_less)
  have "length (takeWhile ?P E) = length E \<longleftrightarrow> takeWhile ?P E = E"
    by (metis takeWhile_eq_take take_all order_refl)
  also have "\<dots> \<longleftrightarrow> (\<forall>e\<in>set E. e < x)"
    by (rule takeWhile_eq_all_conv)
  also have "\<dots> \<longleftrightarrow> E = [] \<or> last E < x"
  proof (cases "E = []")
    case True then show ?thesis by simp
  next
    case False
    then have "last E \<in> set E" by simp
    moreover have "\<forall>e\<in>set E. e \<le> last E"
    proof
      fix e assume "e \<in> set E"
      then obtain i where "i < length E" "e = E ! i"
        by (auto simp: in_set_conv_nth)
      with assms False show "e \<le> last E"
        by (simp add: last_conv_nth sorted_nth_mono)
    qed
    ultimately show ?thesis using False by (meson le_less_trans)
  qed
  finally have b: "length (takeWhile ?P E) = length E \<longleftrightarrow> E = [] \<or> last E < x" .
  show ?thesis
    using a b by (auto simp: cut1_def searchsorted_left_def Let_def)
qed

lemma cut1_upper_edge:
  assumes "sorted_wrt (<) E" and "Suc j < length E"
  shows "cut1 E (E ! Suc j) = Some (Interval (E ! j) (E ! Suc j))"
proof -
  have mono: "\<And>i k. i < k \<Longrightarrow> k < length E \<Longrightarrow> E ! i < E ! k"
    using assms(1) by (rule sorted_wrt_nth_less)
  have "takeWhile (\<lambda>e. e < E ! Suc j) E = take (Suc j) E"
    using assms(2) by (intro takeWhile_eq_take_P_nth) (auto simp: mono)
  then have "searchsorted_left E (E ! Suc j) = Suc j"
    using assms(2) by (simp add: searchsorted_left_def)
  then show ?thesis
    using assms(2) by (simp add: cut1_def)
qed

lemma group_values_map:
  "group_values (map f df) (map g df) b = map g (filter (\<lambda>r. f r = Some b) df)"
  by (induction df) (simp_all add: group_values_def)

lemma transform_nth:
  "i < length keys \<Longrightarrow>
   transform agg keys vals ! i =
     (case keys ! i of None \<Rightarrow> None | Some b \<Rightarrow> agg (group_values keys vals b))"
  by (simp add: transform_def)

lemma bin_and_aggregate_Inr_D:
  assumes "bin_and_aggregate E df = Inr f"
  shows "rows f = df" and "BIN f = map (\<lambda>r. cut1 E (incField r)) df"
    and "MEAN_SURFACE_EMISSIVITY f = transform mean (BIN f) (map emisField df)"
    and "STD_SURFACE_EMISSIVITY f = transform std (BIN f) (map emisField df)"
    and "MEAN_INCIDENCE_ANGLE f = transform mean (BIN f) (map incField df)"
    and "MEAN_RAD_FOOTPRINT_LATITUDE f = transform mean (BIN f) (map latField df)"
  using assms by (auto simp: bin_and_aggregate_def cut_def comp_def split: sum.splits if_splits)

lemma bin_and_aggregate_total:
  "sorted_wrt (<) E \<Longrightarrow> \<exists>f. bin_and_aggregate E df = Inr f"
  by (simp add: bin_and_aggregate_def cut_Inr)

section \<open>Properties of the stage\<close>

lemma sort_values_Nil_iff: "sort_values h = [] \<longleftrightarrow> h = []"
  by (metis sort_values_def length_sort length_0_conv)

lemma Min_le_Max_inc: "h \<noteq> [] \<Longrightarrow> Min (incField ` set h) \<le> Max (incField ` set h)"
  by (simp add: Min_le_iff)

lemma bin_stage_Inr_D:
  assumes "bin_stage binSize h v = Inr s"
  shows "h \<noteq> []" and "binSize \<noteq> 0"
    and "bins s = map (\<lambda>i. Min (incField ` set h) + real i * binSize)
           [0 ..< nat \<lceil>(Max (incField ` set h) + 0.05 - Min (incField ` set h)) / binSize\<rceil>]"
    and "sorted_wrt (<) (bins s)"
    and "bin_and_aggregate (bins s) h = Inr (dfh s)"
    and "bin_and_aggregate (bins s)
           (filter (\<lambda>r. Min (incField ` set h) \<le> incField r \<and> incField r \<le> Max (incField ` set h)) v)
         = Inr (dfv s)"
proof -
  let ?lo = "Min (incField ` set h)" and ?hi = "Max (incField ` set h)"
  show ne: "h \<noteq> []"
    using assms by (auto simp: bin_stage_def col_min_def)
  then have mm: "col_min (map incField h) = Some ?lo" "col_max (map incField h) = Some ?hi"
    by (simp_all add: col_min_eq col_max_eq)
  from assms obtain E where
    E: "arange (Some ?lo) (Some (?hi + 0.05)) binSize = Inr E"
    by (auto simp: bin_stage_def mm split: sum.splits)
  with assms have s: "bins s = E" "bin_and_aggregate E h = Inr (dfh s)"
    "bin_and_aggregate E (range_filter (Some ?lo) (Some ?hi) v) = Inr (dfv s)"
    by (auto simp: bin_stage_def mm split: sum.splits)
  from E show "binSize \<noteq> 0"
    by (auto split: if_splits)
  from E s(1) show "bins s = map (\<lambda>i. ?lo + real i * binSize)
           [0 ..< nat \<lceil>(?hi + 0.05 - ?lo) / binSize\<rceil>]"
    by (auto split: if_splits)
  have "?lo \<le> ?hi + 0.05"
    using Min_le_Max_inc [OF ne] by simp
  with E s(1) show "sorted_wrt (<) (bins s)"
    using arange_strict by blast
  from s show "bin_and_aggregate (bins s) h = Inr (dfh s)" by simp
  from s show "bin_and_aggregate (bins s)
           (filter (\<lambda>r. ?lo \<le> incField r \<and> incField r \<le> ?hi) v) = Inr (dfv s)"
    by (simp add: range_filter_def)
qed

lemma bin_stage_total:
  assumes "h \<noteq> []" and "binSize \<noteq> 0"
  shows "\<exists>s. bin_stage binSize h v = Inr s"
proof -
  let ?lo = "Min (incField ` set h)" and ?hi = "Max (incField ` set h)"
  have mm: "col_min (map incField h) = Some ?lo" "col_max (map incField h) = Some ?hi"
    using assms(1) by (simp_all add: col_min_eq col_max_eq)
  obtain E where E: "arange (Some ?lo) (Some (?hi + 0.05)) binSize = Inr E"
    using assms(2) by simp
  have "?lo \<le> ?hi + 0.05"
    using Min_le_Max_inc [OF assms(1)] by simp
  with E have "sorted_wrt (<) E"
    using arange_strict by blast
  then obtain fh fv where "bin_and_aggregate E h = Inr fh"
    "bin_and_aggregate E (range_filter (Some ?lo) (Some ?hi) v) = Inr fv"
    using bin_and_aggregate_total by meson
  with E show ?thesis
    by (simp add: bin_stage_def mm)
qed

lemma stage_Inr_D:
  assumes "stage binSize h v = Inr s"
  shows "h \<noteq> []" and "binSize \<noteq> 0"
    and "bins s = map (\<lambda>i. Min (incField ` set h) + real i * binSize)
           [0 ..< nat \<lceil>(Max (incField ` set h) + 0.05 - Min (incField ` set h)) / binSize\<rceil>]"
    and "sorted_wrt (<) (bins s)"
    and "bin_and_aggregate (bins s) (sort_values h) = Inr (dfh s)"
    and "bin_and_aggregate (bins s)
           (filter (\<lambda>r. Min (incField ` set h) \<le> incField r \<and> incField r \<le> Max (incField ` set h))
              (sort_values v))
         = Inr (dfv s)"
  using bin_stage_Inr_D [of binSize "sort_values h" "sort_values v" s] assms
  by (simp_all add: stage_def sort_values_Nil_iff) (simp_all add: sort_values_def)

lemma stage_total:
  "h \<noteq> [] \<Longrightarrow> binSize \<noteq> 0 \<Longrightarrow> \<exists>s. stage binSize h v = Inr s"
  by (simp add: stage_def bin_stage_total sort_values_Nil_iff)

text \<open>Every frame of a run is the binning of some table by the run's edges.\<close>

lemma stage_frame:
  assumes "stage binSize h v = Inr s" and "f \<in> {dfh s, dfv s}"
  shows "\<exists>df. bin_and_aggregate (bins s) df = Inr f"
  using stage_Inr_D(5,6) [OF assms(1)] assms(2) by auto

lemma frame_BIN_nth:
  assumes "bin_and_aggregate E df = Inr f" and "i < length (rows f)"
  shows "BIN f ! i = cut1 E (incField (rows f ! i))"
  using bin_and_aggregate_Inr_D(1,2) [OF assms(1)] assms(2) by simp

lemma frame_group:
  assumes "bin_and_aggregate E df = Inr f"
  shows "group_values (BIN f) (map g (rows f)) b =
         map g (filter (\<lambda>r. cut1 E (incField r) = Some b) (rows f))"
  using bin_and_aggregate_Inr_D(1,2) [OF assms] group_values_map [of "\<lambda>r. cut1 E (incField r)" df g b]
  by simp

lemma frame_group_nonempty:
  assumes "bin_and_aggregate E df = Inr f" and "i < length (rows f)" and "BIN f ! i = Some b"
  shows "group_values (BIN f) (map g (rows f)) b \<noteq> []"
proof -
  have "rows f ! i \<in> set (filter (\<lambda>r. cut1 E (incField r) = Some b) (rows f))"
    using frame_BIN_nth [OF assms(1,2)] assms(2,3) by simp
  then show ?thesis
    unfolding frame_group [OF assms(1)] by (metis empty_iff empty_set map_is_Nil_conv) 
qed

lemma frame_columns_nth:
  assumes "bin_and_aggregate E df = Inr f" and "i < length (rows f)" and "BIN f ! i = Some b"
  shows "MEAN_SURFACE_EMISSIVITY f ! i = mean (group_values (BIN f) (map emisField (rows f)) b)"
    and "STD_SURFACE_EMISSIVITY f ! i = std (group_values (BIN f) (map emisField (rows f)) b)"
    and "MEAN_INCIDENCE_ANGLE f ! i = mean (group_values (BIN f) (map incField (rows f)) b)"
    and "MEAN_RAD_FOOTPRINT_LATITUDE f ! i = mean (group_values (BIN f) (map latField (rows f)) b)"
  using bin_and_aggregate_Inr_D [OF assms(1)] assms(2,3)
  by (simp_all add: transform_nth)

lemma frame_columns_nth_None:
  assumes "bin_and_aggregate E df = Inr f" and "i < length (rows f)" and "BIN f ! i = None"
  shows "MEAN_SURFACE_EMISSIVITY f ! i = None"
    and "STD_SURFACE_EMISSIVITY f ! i = None"
    and "MEAN_INCIDENCE_ANGLE f ! i = None"
    and "MEAN_RAD_FOOTPRINT_LATITUDE f ! i = None"
  using bin_and_aggregate_Inr_D [OF assms(1)] assms(2,3)
  by (simp_all add: transform_nth)

lemma std_nonneg:
  assumes "std vs = Some sd"
  shows "0 \<le> sd"
proof -
  let ?m = "sum_list vs / real (length vs)"
  from assms have n: "1 < length vs"
    and sd: "sd = sqrt ((\<Sum>v\<leftarrow>vs. (v - ?m)\<^sup>2) / (real (length vs) - 1))"
    by (auto simp: std_def var_def split: if_splits)
  have "0 \<le> (\<Sum>v\<leftarrow>vs. (v - ?m)\<^sup>2)"
    by (rule sum_list_nonneg) auto
  moreover have "0 < real (length vs) - 1"
    using n by simp
  ultimately show ?thesis
    unfolding sd by (simp add: divide_nonneg_pos)
qed

lemma std_single: "length vs = 1 \<Longrightarrow> std vs = None"
  by (simp add: std_def var_def)

lemma cut1_Some_iff:
  assumes "sorted_wrt (<) E"
  shows "cut1 E x = Some b \<longleftrightarrow>
         (\<exists>j. Suc j < length E \<and> b = Interval (E ! j) (E ! Suc j)) \<and> left b < x \<and> x \<le> right b"
proof
  assume "cut1 E x = Some b"
  then show "(\<exists>j. Suc j < length E \<and> b = Interval (E ! j) (E ! Suc j)) \<and> left b < x \<and> x \<le> right b"
    using cut1_Some_D by blast
next
  assume r: "(\<exists>j. Suc j < length E \<and> b = Interval (E ! j) (E ! Suc j)) \<and> left b < x \<and> x \<le> right b"
  then obtain j where j: "Suc j < length E" and b: "b = Interval (E ! j) (E ! Suc j)"
    by blast
  from r b have lo: "E ! j < x" and up: "x \<le> E ! Suc j"
    by simp_all
  have below: "E ! i < x" if "i < Suc j" for i
  proof (cases "i = j")
    case True
    with lo show ?thesis by simp
  next
    case False
    with that have "i < j" by simp
    then have "E ! i < E ! j"
      using assms j by (simp add: sorted_wrt_nth_less)
    with lo show ?thesis by simp
  qed
  have "takeWhile (\<lambda>e. e < x) E = take (Suc j) E"
    using up by (intro takeWhile_eq_take_P_nth) (auto simp: below)
  then have "searchsorted_left E x = Suc j"
    using j by (simp add: searchsorted_left_def)
  then show "cut1 E x = Some b"
    using j b by (simp add: cut1_def)
qed

lemma edges_hd:
  fixes lo step :: real
  assumes "map (\<lambda>i. lo + real i * step) [0 ..< n] \<noteq> []"
  shows "hd (map (\<lambda>i. lo + real i * step) [0 ..< n]) = lo"
  using assms by (simp add: hd_map)

lemma zip_map_same: "zip (map f xs) (map g xs) = map (\<lambda>x. (f x, g x)) xs"
  by (induction xs) simp_all

lemma transform_rowwise:
  "transform agg (map lab df) (map g df) =
   map (\<lambda>r. case lab r of None \<Rightarrow> None
            | Some b \<Rightarrow> agg (map g (filter (\<lambda>r'. lab r' = Some b) df))) df"
  by (simp add: transform_def group_values_map)

lemma mean_mset:
  assumes "mset xs = mset ys"
  shows "mean xs = mean ys"
proof -
  have "sum_list xs = sum_list ys"
    using assms by (metis sum_mset_sum_list)
  moreover have "length xs = length ys"
    using assms by (rule mset_eq_length)
  ultimately show ?thesis
    by (auto simp: mean_def)
qed

lemma std_mset:
  assumes "mset xs = mset ys"
  shows "std xs = std ys"
proof -
  have s: "sum_list xs = sum_list ys"
    using assms by (metis sum_mset_sum_list)
  have l: "length xs = length ys"
    using assms by (rule mset_eq_length)
  have "mset (map h xs) = mset (map h ys)" for h :: "real \<Rightarrow> real"
    using assms by (metis mset_map)
  then have "sum_list (map h xs) = sum_list (map h ys)" for h :: "real \<Rightarrow> real"
    by (metis sum_mset_sum_list)
  then show ?thesis
    by (simp add: std_def var_def s l)
qed

lemma group_mset:
  assumes "mset df1 = mset df2"
  shows "mset (map g (filter P df1)) = mset (map g (filter P df2))"
  using assms by (metis mset_filter mset_map)

lemma frame_summaries:
  assumes "bin_and_aggregate E df = Inr f"
  shows "bin_summaries f =
    (\<lambda>r. (cut1 E (incField r),
          (case cut1 E (incField r) of None \<Rightarrow> None
           | Some b \<Rightarrow> mean (map emisField (filter (\<lambda>r'. cut1 E (incField r') = Some b) df))),
          (case cut1 E (incField r) of None \<Rightarrow> None
           | Some b \<Rightarrow> std (map emisField (filter (\<lambda>r'. cut1 E (incField r') = Some b) df))),
          (case cut1 E (incField r) of None \<Rightarrow> None
           | Some b \<Rightarrow> mean (map incField (filter (\<lambda>r'. cut1 E (incField r') = Some b) df))),
          (case cut1 E (incField r) of None \<Rightarrow> None
           | Some b \<Rightarrow> mean (map latField (filter (\<lambda>r'. cut1 E (incField r') = Some b) df))))) ` set df"
  unfolding bin_summaries_def bin_and_aggregate_Inr_D(3-6) [OF assms]
  unfolding bin_and_aggregate_Inr_D(2) [OF assms] transform_rowwise zip_map_same
  by simp

lemma bin_summaries_mset:
  assumes "mset df1 = mset df2"
    and "bin_and_aggregate E df1 = Inr f1" and "bin_and_aggregate E df2 = Inr f2"
  shows "bin_summaries f1 = bin_summaries f2"
proof -
  have set: "set df1 = set df2"
    using assms(1) by (rule mset_eq_setD)
  have m: "mean (map g (filter P df1)) = mean (map g (filter P df2))" for g P
    by (rule mean_mset [OF group_mset [OF assms(1)]])
  have sd: "std (map g (filter P df1)) = std (map g (filter P df2))" for g P
    by (rule std_mset [OF group_mset [OF assms(1)]])
  show ?thesis
    unfolding frame_summaries [OF assms(2)] frame_summaries [OF assms(3)] set m sd ..
qed

lemma stage_Inl:
  assumes "h = [] \<or> binSize = 0"
  shows "stage binSize h v = Inl ArangeError"
proof (cases "h = []")
  case True
  then show ?thesis
    by (simp add: stage_def sort_values_def bin_stage_def col_min_def col_max_def)
next
  case False
  with assms have "binSize = 0" by simp
  moreover from False have "sort_values h \<noteq> []"
    by (simp add: sort_values_Nil_iff)
  ultimately show ?thesis
    by (simp add: stage_def bin_stage_def col_min_eq col_max_eq)
qed

lemma frame_rows_labels_means:
  assumes "bin_and_aggregate E df = Inr f"
  shows "zip (rows f) (zip (BIN f) (MEAN_SURFACE_EMISSIVITY f)) =
    map (\<lambda>r. (r, cut1 E (incField r),
          (case cut1 E (incField r) of None \<Rightarrow> None
           | Some b \<Rightarrow> mean (map emisField (filter (\<lambda>r'. cut1 E (incField r') = Some b) df))))) df"
  unfolding bin_and_aggregate_Inr_D(3) [OF assms]
  unfolding bin_and_aggregate_Inr_D(1,2) [OF assms] transform_rowwise zip_map_same
  using zip_map_same [of "\<lambda>r. r" df] by simp

section \<open>Properties of the stage with \<^verbatim>\<open>np.arange\<close> as a parameter\<close>

lemma stage_with_arange: "stage_with arange = stage"
  by (intro ext) (simp add: stage_with_def stage_def bin_stage_with_def bin_stage_def)


lemma cut_Inr_D:
  assumes "cut x E = Inr labels"
  shows "sorted E" and "E ! j < E ! Suc j \<Longrightarrow> Suc j < length E \<Longrightarrow> sorted_wrt (<) E"
    and "sorted_wrt (<) E \<or> (\<exists>a. E = [a, a])"
proof -
  from assms show s: "sorted E"
    by (auto simp: cut_def split: if_splits)
  from assms have d: "distinct E \<or> length E = 2"
    by (auto simp: cut_def split: if_splits)
  have two: "\<exists>a b. E = [a, b]" if "length E = 2"
    using that by (cases E; cases "tl E") auto
  show "sorted_wrt (<) E \<or> (\<exists>a. E = [a, a])"
  proof (cases "distinct E")
    case True
    with s show ?thesis by (simp add: strict_sorted_iff)
  next
    case False
    with d two obtain a b where E: "E = [a, b]" by blast
    with False have "a = b" by simp
    with E show ?thesis by simp
  qed
  then show "sorted_wrt (<) E" if "E ! j < E ! Suc j" "Suc j < length E"
    using that by auto
qed

lemma bin_and_aggregate_edges:
  assumes "bin_and_aggregate E df = Inr f"
  shows "sorted E" and "sorted_wrt (<) E \<or> (\<exists>a. E = [a, a])"
    and "E ! j < E ! Suc j \<Longrightarrow> Suc j < length E \<Longrightarrow> sorted_wrt (<) E"
proof -
  from assms obtain labels where c: "cut (map incField df) E = Inr labels"
    by (auto simp: bin_and_aggregate_def split: sum.splits)
  show "sorted E" by (rule cut_Inr_D(1) [OF c])
  show "sorted_wrt (<) E \<or> (\<exists>a. E = [a, a])" by (rule cut_Inr_D(3) [OF c])
  show "sorted_wrt (<) E" if "E ! j < E ! Suc j" "Suc j < length E"
    using that by (rule cut_Inr_D(2) [OF c])
qed

lemma bin_stage_with_Inr_D:
  assumes "bin_stage_with np_arange binSize h v = Inr s"
  shows "np_arange (col_min (map incField h)) (map_option (\<lambda>m. m + 0.05) (col_max (map incField h)))
           binSize = Inr (bins s)"
    and "bin_and_aggregate (bins s) h = Inr (dfh s)"
    and "bin_and_aggregate (bins s) (range_filter (col_min (map incField h)) (col_max (map incField h)) v)
         = Inr (dfv s)"
  using assms by (auto simp: bin_stage_with_def Let_def split: sum.splits)

lemma stage_with_Inr_D:
  assumes "stage_with np_arange binSize h v = Inr s"
  shows "np_arange (col_min (map incField (sort_values h)))
           (map_option (\<lambda>m. m + 0.05) (col_max (map incField (sort_values h)))) binSize = Inr (bins s)"
    and "bin_and_aggregate (bins s) (sort_values h) = Inr (dfh s)"
    and "\<exists>df. bin_and_aggregate (bins s) df = Inr (dfv s)"
  using bin_stage_with_Inr_D [of np_arange binSize "sort_values h" "sort_values v" s] assms
  by (auto simp: stage_with_def)

lemma stage_with_frame:
  assumes "stage_with np_arange binSize h v = Inr s" and "f \<in> {dfh s, dfv s}"
  shows "\<exists>df. bin_and_aggregate (bins s) df = Inr f"
  using stage_with_Inr_D(2,3) [OF assms(1)] assms(2) by auto



section \<open>Evaluation of the worked tables\<close>

lemmas stage_defs = stage_def sort_values_def bin_stage_def col_min_def col_max_def
  bin_and_aggregate_def cut_def cut1_def searchsorted_left_def transform_def group_values_def
  mean_def std_def var_def range_filter_def Let_def upt_rec

lemma scenario_run: "stage 10 scenario_h [] = Inr scenario_result"
  by (simp add: stage_defs)

lemma sample_run: "stage 10 sample_h sample_v = Inr sample_result"
  by (simp add: stage_defs)

section \<open>The claims\<close>

subsection \<open>C1: the bin edges and the rows they cover\<close>




subsection \<open>C2: right-inclusive bins\<close>

text \<open>
  Claim C2: for every row and every bin edge, binning is right-inclusive, whatever
  doubles \<^verbatim>\<open>np.arange\<close> computes on line 99. In a run that returns, a row of either table
  whose incidence angle equals the upper edge \<open>bins[j + 1]\<close> of a bin
  \<open>(bins[j], bins[j + 1]]\<close> with \<open>bins[j] < bins[j + 1]\<close> is assigned to a bin, and the rows
  assigned to the same bin are exactly those whose incidence angle lies in
  \<open>(bins[j], bins[j + 1]]\<close>: the row is in that bin, and not in the next higher one.
  (\<^verbatim>\<open>pd.cut\<close> accepts equal edges only as an array of two, whose one interval is empty.)
\<close>

theorem right_inclusive:
  assumes "stage_with np_arange binSize ovda_h ovda_v = Inr s" and "f \<in> {dfh s, dfv s}"
    and "i < length (rows f)" and "Suc j < length (bins s)"
    and "bins s ! j < bins s ! Suc j"
    and "incField (rows f ! i) = bins s ! Suc j"
  shows "BIN f ! i \<noteq> None \<and>
         (\<forall>k < length (rows f).
            (BIN f ! k = BIN f ! i) =
            (bins s ! j < incField (rows f ! k) \<and> incField (rows f ! k) \<le> bins s ! Suc j))"
proof -
  from stage_with_frame [OF assms(1,2)] obtain df where df: "bin_and_aggregate (bins s) df = Inr f" ..
  have strict: "sorted_wrt (<) (bins s)"
    using assms(5,4) by (rule bin_and_aggregate_edges(3) [OF df])
  let ?b = "Interval (bins s ! j) (bins s ! Suc j)"
  have "BIN f ! i = cut1 (bins s) (bins s ! Suc j)"
    using df assms(3,6) by (simp add: frame_BIN_nth)
  also have "\<dots> = Some ?b"
    using strict assms(4) by (rule cut1_upper_edge)
  finally have eq: "BIN f ! i = Some ?b" .
  have "(BIN f ! k = BIN f ! i) =
        (bins s ! j < incField (rows f ! k) \<and> incField (rows f ! k) \<le> bins s ! Suc j)"
    if "k < length (rows f)" for k
  proof -
    have "BIN f ! k = cut1 (bins s) (incField (rows f ! k))"
      using df that by (rule frame_BIN_nth)
    then show ?thesis
      using assms(4) by (auto simp: eq cut1_Some_iff [OF strict])
  qed
  with eq show ?thesis by simp
qed

text \<open>
  The scenario table at bin size 10: the row with incidence angle 20, the edge
  \<open>bins[1]\<close>, is assigned to a bin and the row with incidence angle 30 to another. The
  sample V table: the row with incidence angle 20 shares its bin with the row of
  incidence angle 15.
\<close>

theorem right_inclusive_witness:
  "stage_with arange 10 scenario_h [] = Inr scenario_result \<and>
   bins scenario_result ! 0 < bins scenario_result ! Suc 0 \<and>
   incField (rows (dfh scenario_result) ! 2) = bins scenario_result ! Suc 0 \<and>
   BIN (dfh scenario_result) ! 2 \<noteq> None \<and>
   BIN (dfh scenario_result) ! 3 \<noteq> BIN (dfh scenario_result) ! 2 \<and>
   stage_with arange 10 sample_h sample_v = Inr sample_result \<and>
   incField (rows (dfv sample_result) ! 1) = bins sample_result ! Suc 0 \<and>
   BIN (dfv sample_result) ! 0 = BIN (dfv sample_result) ! 1"
  using right_inclusive [of arange 10 scenario_h "[]" scenario_result "dfh scenario_result" 2 0]
    right_inclusive [of arange 10 sample_h sample_v sample_result "dfv sample_result" 1 0]
    scenario_run sample_run
  by (simp add: stage_with_arange)

subsection \<open>C3: the binning scenario\<close>

text \<open>
  Claim C3, as amended: for the H table with incidence angles 10, 10, 20, 30 and
  emissivities 0.5, 0.6, 0.8, 0.9, whatever its latitudes and the V table, a bin size of
  10 gives the edges 10, 20, 30; the two rows of incidence angle 10 have no bin, the bin
  \<open>(10, 20]\<close> holds the third row alone with mean emissivity 0.8, the bin \<open>(20, 30]\<close>
  holds the fourth row alone with mean emissivity 0.9, and there is no further bin.
\<close>

theorem scenario_binning:
  "\<exists>s. stage 10
          [\<lparr>emisField = 0.5, incField = 10, latField = l1\<rparr>,
           \<lparr>emisField = 0.6, incField = 10, latField = l2\<rparr>,
           \<lparr>emisField = 0.8, incField = 20, latField = l3\<rparr>,
           \<lparr>emisField = 0.9, incField = 30, latField = l4\<rparr>] ovda_v = Inr s \<and>
        bins s = [10, 20, 30] \<and>
        set (zip (rows (dfh s)) (zip (BIN (dfh s)) (MEAN_SURFACE_EMISSIVITY (dfh s)))) =
          {(\<lparr>emisField = 0.5, incField = 10, latField = l1\<rparr>, None, None),
           (\<lparr>emisField = 0.6, incField = 10, latField = l2\<rparr>, None, None),
           (\<lparr>emisField = 0.8, incField = 20, latField = l3\<rparr>, Some (Interval 10 20), Some 0.8),
           (\<lparr>emisField = 0.9, incField = 30, latField = l4\<rparr>, Some (Interval 20 30), Some 0.9)}"
proof -
  let ?h = "[\<lparr>emisField = 0.5, incField = 10, latField = l1\<rparr>,
           \<lparr>emisField = 0.6, incField = 10, latField = l2\<rparr>,
           \<lparr>emisField = 0.8, incField = 20, latField = l3\<rparr>,
           \<lparr>emisField = 0.9, incField = 30, latField = l4\<rparr>]"
  obtain s where s: "stage 10 ?h ovda_v = Inr s"
    using stage_total [of ?h 10 ovda_v] by auto
  have E: "bins s = [10, 20, 30]"
    unfolding stage_Inr_D(3) [OF s] by (simp add: upt_rec)
  have "set (zip (rows (dfh s)) (zip (BIN (dfh s)) (MEAN_SURFACE_EMISSIVITY (dfh s)))) =
          {(\<lparr>emisField = 0.5, incField = 10, latField = l1\<rparr>, None, None),
           (\<lparr>emisField = 0.6, incField = 10, latField = l2\<rparr>, None, None),
           (\<lparr>emisField = 0.8, incField = 20, latField = l3\<rparr>, Some (Interval 10 20), Some 0.8),
           (\<lparr>emisField = 0.9, incField = 30, latField = l4\<rparr>, Some (Interval 20 30), Some 0.9)}"
    unfolding frame_rows_labels_means [OF stage_Inr_D(5) [OF s]] E sort_values_def
      set_map set_sort filter_sort
    by (simp add: cut1_def searchsorted_left_def mean_def)
  with s E show ?thesis by blast
qed

text \<open>
  Claim C3 as stated fails: in the run on the scenario table the first two rows are in
  no bin, and the mean emissivity of the bin with upper edge 20 is 0.8, not 0.55.
\<close>

theorem scenario_first_rows_unbinned:
  "stage 10 scenario_h [] = Inr scenario_result \<and>
   bins scenario_result = [10, 20, 30] \<and>
   BIN (dfh scenario_result) = [None, None, Some (Interval 10 20), Some (Interval 20 30)] \<and>
   MEAN_SURFACE_EMISSIVITY (dfh scenario_result) = [None, None, Some 0.8, Some 0.9] \<and>
   (0.8 :: real) \<noteq> 0.55"
  using scenario_run by simp

subsection \<open>C4: which standard deviation\<close>

text \<open>
  Claim C4, as amended: for every labelled row of either table, the value of the column
  \<^verbatim>\<open>STD_SURFACE_EMISSIVITY\<close> is the sample standard deviation of the emissivities
  \<open>g\<close> of the row's bin: the square root of the sum of squared deviations from the mean
  of \<open>g\<close> divided by \<open>n - 1\<close>, and NaN when the bin has one row.
\<close>

theorem std_is_sample_std:
  assumes "stage binSize ovda_h ovda_v = Inr s" and "f \<in> {dfh s, dfv s}"
    and "i < length (rows f)" and "BIN f ! i = Some b"
  shows "(let g = group_values (BIN f) (map emisField (rows f)) b; n = length g
          in 1 \<le> n \<and> STD_SURFACE_EMISSIVITY f ! i =
               (if n = 1 then None
                else Some (sqrt ((\<Sum>x\<leftarrow>g. (x - sum_list g / real n)\<^sup>2) / (real n - 1)))))"
proof -
  from stage_frame [OF assms(1,2)] obtain df where df: "bin_and_aggregate (bins s) df = Inr f" ..
  note col = frame_columns_nth(2) [OF df assms(3,4)]
  have "group_values (BIN f) (map emisField (rows f)) b \<noteq> []"
    by (rule frame_group_nonempty [OF df assms(3,4)])
  then have "1 \<le> length (group_values (BIN f) (map emisField (rows f)) b)"
    by (simp add: Suc_le_eq)
  then show ?thesis
    by (auto simp: col std_def var_def Let_def)
qed

text \<open>The sample tables: the three-row bin \<open>(10, 20]\<close> of the H table.\<close>

theorem std_is_sample_std_witness:
  "stage 10 sample_h sample_v = Inr sample_result \<and>
   BIN (dfh sample_result) ! 1 = Some (Interval 10 20) \<and>
   STD_SURFACE_EMISSIVITY (dfh sample_result) ! 1 =
     Some (sqrt (((0.6 - 0.4)\<^sup>2 + (0.2 - 0.4)\<^sup>2 + (0.4 - 0.4)\<^sup>2) / (3 - 1)))"
  using std_is_sample_std [OF sample_run, of "dfh sample_result" 1 "Interval 10 20"] sample_run
  by (simp add: group_values_def)

text \<open>
  Claim C4 as stated fails: in the run on the sample tables, the bin \<open>(10, 20]\<close> of the
  H table holds the emissivities 0.6, 0.2, 0.4; the column holds 0.2 for its rows, and
  their population standard deviation is another number.
\<close>

theorem std_not_population_std:
  "stage 10 sample_h sample_v = Inr sample_result \<and>
   group_values (BIN (dfh sample_result)) (map emisField (rows (dfh sample_result)))
     (Interval 10 20) = [0.6, 0.2, 0.4] \<and>
   STD_SURFACE_EMISSIVITY (dfh sample_result) ! 1 = Some 0.2 \<and>
   population_std [0.6, 0.2, 0.4] \<noteq> Some 0.2"
proof -
  have "sqrt (2 / 75) \<noteq> sqrt (1 / 25)"
    by simp
  moreover have "sqrt (1 / 25) = 1 / 5"
    by (rule real_sqrt_unique) (simp_all add: power2_eq_square)
  ultimately have "population_std [0.6, 0.2, 0.4] \<noteq> Some 0.2"
    by (simp add: population_std_def power2_eq_square)
  then show ?thesis
    using sample_run by (simp add: group_values_def)
qed

subsection \<open>C5: sign and definedness of the standard deviation\<close>

text \<open>
  Claim C5: for every bin with at least one row (the bin \<open>b\<close> of a labelled row of either
  table), the standard deviation of its emissivities is at least 0 when it is a number,
  and it is NaN when the bin has exactly one row.
\<close>

theorem std_nonneg_and_undefined_for_single_row:
  assumes "stage binSize ovda_h ovda_v = Inr s" and "f \<in> {dfh s, dfv s}"
    and "i < length (rows f)" and "BIN f ! i = Some b"
  shows "group_values (BIN f) (map emisField (rows f)) b \<noteq> [] \<and>
         (\<forall>sd. STD_SURFACE_EMISSIVITY f ! i = Some sd \<longrightarrow> 0 \<le> sd) \<and>
         (length (group_values (BIN f) (map emisField (rows f)) b) = 1 \<longrightarrow>
            STD_SURFACE_EMISSIVITY f ! i = None)"
proof -
  from stage_frame [OF assms(1,2)] obtain df where df: "bin_and_aggregate (bins s) df = Inr f" ..
  note col = frame_columns_nth(2) [OF df assms(3,4)]
  show ?thesis
    using frame_group_nonempty [OF df assms(3,4)] std_nonneg std_single
    by (simp add: col)
qed

text \<open>
  The scenario table: the bin \<open>(10, 20]\<close> has the single row of emissivity 0.8 and NaN as
  its standard deviation. The sample V table: the bin \<open>(10, 20]\<close> has three rows and the
  standard deviation 0.2.
\<close>

theorem std_nonneg_and_undefined_for_single_row_witness:
  "stage 10 scenario_h [] = Inr scenario_result \<and>
   group_values (BIN (dfh scenario_result)) (map emisField (rows (dfh scenario_result)))
     (Interval 10 20) = [0.8] \<and>
   STD_SURFACE_EMISSIVITY (dfh scenario_result) ! 2 = None \<and>
   stage 10 sample_h sample_v = Inr sample_result \<and>
   STD_SURFACE_EMISSIVITY (dfv sample_result) ! 0 = Some 0.2 \<and> (0::real) \<le> 0.2"
  using std_nonneg_and_undefined_for_single_row [OF scenario_run, of "dfh scenario_result" 2 "Interval 10 20"]
    std_nonneg_and_undefined_for_single_row [OF sample_run, of "dfv sample_result" 0 "Interval 10 20"]
    scenario_run sample_run
  by (simp add: group_values_def)

subsection \<open>C6: the range filter of the V table\<close>

text \<open>
  Claim C6: in a run that returns, the rows of the V table after line 100 are exactly
  the rows of the V input whose incidence angle lies between the minimum and the maximum
  incidence angle of the H table, each as often as the input has it: every retained row
  is in that range, and only rows outside it are dropped.
\<close>

theorem range_filter_retains_exactly_in_range:
  assumes "stage binSize ovda_h ovda_v = Inr s"
  shows "mset (rows (dfv s)) =
         filter_mset (\<lambda>r. Min (incField ` set ovda_h) \<le> incField r \<and>
                          incField r \<le> Max (incField ` set ovda_h)) (mset ovda_v)"
  using bin_and_aggregate_Inr_D(1) [OF stage_Inr_D(6) [OF assms]]
  by (simp add: sort_values_def)

text \<open>
  The sample tables: the H incidence angles span 10 to 20; of the five V rows, those
  with the angles 9 and 21 are dropped.
\<close>

theorem range_filter_witness:
  "stage 10 sample_h sample_v = Inr sample_result \<and>
   Min (incField ` set sample_h) = 10 \<and> Max (incField ` set sample_h) = 20 \<and>
   mset (rows (dfv sample_result)) =
     {#\<lparr>emisField = 0.3, incField = 20, latField = 2\<rparr>,
       \<lparr>emisField = 0.5, incField = 15, latField = 1.5\<rparr>,
       \<lparr>emisField = 0.7, incField = 12, latField = 3\<rparr>#}"
  using range_filter_retains_exactly_in_range [OF sample_run] sample_run
  by simp

subsection \<open>C7: which layer the loader reads\<close>

text \<open>
  Claim C7: the loader returns the rows of the first layer of the file it is given.
  Pipeline A does. Pipeline B reads the H file with the name of the V file's first
  layer (line 90): with an H file whose layers are \<open>h\<close> and \<open>v\<close> and a V file whose
  first layer is \<open>v\<close>, the H table is the second layer of the H file; with an H file
  that has no layer \<open>v\<close>, the load fails.
\<close>

theorem load_B_reads_H_file_with_V_layer:
  "load_B [(''h'', 1), (''v'', 2)] [(''v'', 3)] = Inr (2 :: nat, 3) \<and>
   load_A [(''h'', 1), (''v'', 2)] = Inr (1 :: nat) \<and>
   load_B [(''h'', 1)] [(''v'', 3)] = (Inl LayerError :: error + nat \<times> nat)"
  by (simp add: load_B_def load_A_def first_layer_def listlayers_def read_file_def
      same_layer_name_def lower_code_def)

subsection \<open>C8: the summaries are a function of the inputs\<close>

text \<open>
  Claim C8: two runs of lines 93-114 on the same two tables with the same bin size end
  with the same summary: the same exception, or the same bin edges and the same bin
  summaries for both tables. The summary depends on each table only through its
  multiset of rows, so the order in which the input or \<^verbatim>\<open>sort_values\<close> leaves rows of
  equal latitude does not show in it.
\<close>

theorem summaries_determined_by_inputs:
  assumes "mset h1 = mset h2" and "mset v1 = mset v2"
  shows "run_summary (stage binSize h1 v1) = run_summary (stage binSize h2 v2)"
proof (cases "h1 = [] \<or> binSize = 0")
  case True
  moreover from assms(1) have "h1 = [] \<longleftrightarrow> h2 = []"
    by (metis mset_zero_iff)
  ultimately show ?thesis
    by (simp add: stage_Inl)
next
  case False
  moreover from assms(1) have "h1 = [] \<longleftrightarrow> h2 = []"
    by (metis mset_zero_iff)
  ultimately obtain s1 s2 where
    s1: "stage binSize h1 v1 = Inr s1" and s2: "stage binSize h2 v2 = Inr s2"
    using stage_total [of h1 binSize v1] stage_total [of h2 binSize v2] by auto
  have set: "set h1 = set h2"
    using assms(1) by (rule mset_eq_setD)
  have b: "bins s1 = bins s2"
    unfolding stage_Inr_D(3) [OF s1] stage_Inr_D(3) [OF s2] set ..
  have "mset (sort_values h1) = mset (sort_values h2)"
    using assms(1) by (simp add: sort_values_def)
  then have fh: "bin_summaries (dfh s1) = bin_summaries (dfh s2)"
    using stage_Inr_D(5) [OF s1] stage_Inr_D(5) [OF s2] unfolding b
    by (rule bin_summaries_mset)
  have "mset (filter P (sort_values v1)) = mset (filter P (sort_values v2))" for P
    using assms(2) by (simp add: sort_values_def)
  then have fv: "bin_summaries (dfv s1) = bin_summaries (dfv s2)"
    using stage_Inr_D(6) [OF s1] stage_Inr_D(6) [OF s2] unfolding b set
    by (rule bin_summaries_mset)
  show ?thesis
    by (simp add: run_summary_def s1 s2 b fh fv)
qed

text \<open>
  The sample tables, and the same tables with their rows in reverse order: the same
  edges and the same bin summaries.
\<close>

theorem summaries_determined_by_inputs_witness:
  "mset sample_h = mset (rev sample_h) \<and> mset sample_v = mset (rev sample_v) \<and>
   run_summary (stage 10 (rev sample_h) (rev sample_v)) =
     Inr ([10, 20], bin_summaries sample_dfh, bin_summaries sample_dfv)"
  using summaries_determined_by_inputs [of sample_h "rev sample_h" sample_v "rev sample_v" 10]
    sample_run
  by (simp add: run_summary_def)

subsection \<open>C9: an H table without rows\<close>

text \<open>
  Claim C9, as amended: an H table without rows loads as a table without rows (here
  from files whose first layers have the same name, see C7); its minimum and maximum
  incidence angle are NaN and the computation of the bin edges on line 99 raises,
  whatever the bin size and the V table. No bin is produced.
\<close>

theorem empty_H_table_raises:
  "load_B ((layer, []) # Hlayers) ((layer, ovda_v) # Vlayers) = Inr ([], ovda_v) \<and>
   stage binSize [] ovda_v = Inl ArangeError"
  by (simp add: load_B_def first_layer_def listlayers_def read_file_def same_layer_name_def
      lower_code_def stage_defs)

text \<open>
  Claim C9 as stated fails: two files with an empty first layer load, and the run on the
  two empty tables with the default bin size does not complete: it raises on line 99.
\<close>

theorem empty_H_table_raises_at_default_bin_size:
  "load_B [(''ovda'', [])] [(''ovda'', [])] = Inr ([] :: obs list, []) \<and>
   stage 0.1 [] [] = Inl ArangeError"
  by (simp add: load_B_def first_layer_def listlayers_def read_file_def same_layer_name_def
      lower_code_def stage_defs)

subsection \<open>C10: rows at the minimum incidence angle\<close>

text \<open>
  Claim C10: in a run that returns, an H row whose incidence angle is the minimum of the
  H table has no bin label and NaN in the four aggregate columns; and the four
  aggregates of every bin \<open>b\<close> are taken over the rows with
  \<open>left b < incidence angle \<le> right b\<close>, where \<open>left b\<close> is not below the minimum: the
  row at the minimum is not among them.
\<close>

theorem rows_at_minimum_unbinned:
  assumes "stage binSize ovda_h ovda_v = Inr s"
    and "i < length (rows (dfh s))"
    and "incField (rows (dfh s) ! i) = Min (incField ` set ovda_h)"
  shows "BIN (dfh s) ! i = None \<and>
         MEAN_SURFACE_EMISSIVITY (dfh s) ! i = None \<and>
         STD_SURFACE_EMISSIVITY (dfh s) ! i = None \<and>
         MEAN_INCIDENCE_ANGLE (dfh s) ! i = None \<and>
         MEAN_RAD_FOOTPRINT_LATITUDE (dfh s) ! i = None \<and>
         (\<forall>j < length (rows (dfh s)). \<forall>b. BIN (dfh s) ! j = Some b \<longrightarrow>
            (let members = filter (\<lambda>r. left b < incField r \<and> incField r \<le> right b)
                             (rows (dfh s))
             in Min (incField ` set ovda_h) \<le> left b \<and>
                rows (dfh s) ! i \<notin> set members \<and>
                MEAN_SURFACE_EMISSIVITY (dfh s) ! j = mean (map emisField members) \<and>
                STD_SURFACE_EMISSIVITY (dfh s) ! j = std (map emisField members) \<and>
                MEAN_INCIDENCE_ANGLE (dfh s) ! j = mean (map incField members) \<and>
                MEAN_RAD_FOOTPRINT_LATITUDE (dfh s) ! j = mean (map latField members)))"
proof -
  let ?lo = "Min (incField ` set ovda_h)"
  let ?f = "dfh s"
  note E = stage_Inr_D(3) [OF assms(1)]
  note strict = stage_Inr_D(4) [OF assms(1)]
  note fr = stage_Inr_D(5) [OF assms(1)]
  have sorted: "sorted (bins s)"
    using strict by (simp add: strict_sorted_iff)
  have hd: "hd (bins s) = ?lo" if "bins s \<noteq> []"
    using that unfolding E by (rule edges_hd)
  have "cut1 (bins s) ?lo = None"
    using hd by (auto simp: cut1_None_iff [OF sorted])
  then have none: "BIN ?f ! i = None"
    using frame_BIN_nth [OF fr assms(2)] assms(3) by simp
  have agg: "(let members = filter (\<lambda>r. left b < incField r \<and> incField r \<le> right b) (rows ?f)
       in ?lo \<le> left b \<and>
          rows ?f ! i \<notin> set members \<and>
          MEAN_SURFACE_EMISSIVITY ?f ! j = mean (map emisField members) \<and>
          STD_SURFACE_EMISSIVITY ?f ! j = std (map emisField members) \<and>
          MEAN_INCIDENCE_ANGLE ?f ! j = mean (map incField members) \<and>
          MEAN_RAD_FOOTPRINT_LATITUDE ?f ! j = mean (map latField members))"
    if j: "j < length (rows ?f)" and b: "BIN ?f ! j = Some b" for j b
  proof -
    from frame_BIN_nth [OF fr j] b have c: "cut1 (bins s) (incField (rows ?f ! j)) = Some b"
      by simp
    then obtain k where k: "Suc k < length (bins s)" "b = Interval (bins s ! k) (bins s ! Suc k)"
      using cut1_Some_D by blast
    then have member: "cut1 (bins s) x = Some b \<longleftrightarrow> left b < x \<and> x \<le> right b" for x
      using cut1_Some_iff [OF strict] by blast
    from k(1) have ne: "bins s \<noteq> []" by auto
    have "hd (bins s) \<le> bins s ! k"
      using sorted k(1) ne by (simp add: hd_conv_nth sorted_nth_mono)
    with hd [OF ne] k(2) have lo: "?lo \<le> left b" by simp
    then have "\<not> left b < incField (rows ?f ! i)"
      using assms(3) by simp
    with lo show ?thesis
      using frame_columns_nth [OF fr j b] by (simp add: frame_group [OF fr] member Let_def)
  qed
  from none agg show ?thesis
    using frame_columns_nth_None [OF fr assms(2) none] by blast
qed

text \<open>
  The scenario table: the second row is at the minimum 10 and has no label and no
  aggregates; the third row is in the bin \<open>(10, 20]\<close>, whose mean is that of the single
  emissivity 0.8.
\<close>

theorem rows_at_minimum_unbinned_witness:
  "stage 10 scenario_h [] = Inr scenario_result \<and>
   incField (rows (dfh scenario_result) ! 1) = Min (incField ` set scenario_h) \<and>
   BIN (dfh scenario_result) ! 1 = None \<and>
   MEAN_SURFACE_EMISSIVITY (dfh scenario_result) ! 1 = None \<and>
   STD_SURFACE_EMISSIVITY (dfh scenario_result) ! 1 = None \<and>
   BIN (dfh scenario_result) ! 2 = Some (Interval 10 20) \<and>
   MEAN_SURFACE_EMISSIVITY (dfh scenario_result) ! 2 = mean [0.8]"
  using rows_at_minimum_unbinned [OF scenario_run, of 1] scenario_run
  by (simp add: mean_def)

end
